theory Spec2Isabelle
  imports Main
begin

section \<open>Syntax tree\<close>

text \<open>
  The scoring engine reads a concrete syntax tree produced by the TypeScript compiler
  API. Only the node kinds that the engine tests for are distinguished; every other
  token is \<open>OtherToken\<close> and every other node is \<open>OtherNode\<close>.
\<close>

datatype SyntaxKind =
    OpenParenToken | CloseParenToken | OpenBraceToken | CloseBraceToken
  | QuestionToken | ColonToken | SemicolonToken | EqualsGreaterThanToken
  | Identifier
  | IfKeyword | ElseKeyword | WhileKeyword | DoKeyword | ForKeyword | SwitchKeyword
  | FunctionKeyword | BreakKeyword | ContinueKeyword | CatchKeyword
  | OtherToken
  | ArrowFunction | FunctionExpression | ConditionalExpression
  | Block | IfStatement | DoStatement | WhileStatement
  | ForStatement | ForInStatement | ForOfStatement
  | BreakStatement | ContinueStatement | SwitchStatement
  | FunctionDeclaration | MethodDeclaration | CatchClause | CaseBlock
  | SourceFile | SyntaxList
  | OtherNode

text \<open>
  \<open>ts.isToken\<close> tests that the kind lies between \<open>FirstToken\<close> and \<open>LastToken\<close>:
  punctuation, identifiers and keywords.
\<close>

fun isTokenKind :: "SyntaxKind \<Rightarrow> bool" where
  "isTokenKind OpenParenToken = True"
| "isTokenKind CloseParenToken = True"
| "isTokenKind OpenBraceToken = True"
| "isTokenKind CloseBraceToken = True"
| "isTokenKind QuestionToken = True"
| "isTokenKind ColonToken = True"
| "isTokenKind SemicolonToken = True"
| "isTokenKind EqualsGreaterThanToken = True"
| "isTokenKind Identifier = True"
| "isTokenKind IfKeyword = True"
| "isTokenKind ElseKeyword = True"
| "isTokenKind WhileKeyword = True"
| "isTokenKind DoKeyword = True"
| "isTokenKind ForKeyword = True"
| "isTokenKind SwitchKeyword = True"
| "isTokenKind FunctionKeyword = True"
| "isTokenKind BreakKeyword = True"
| "isTokenKind ContinueKeyword = True"
| "isTokenKind CatchKeyword = True"
| "isTokenKind OtherToken = True"
| "isTokenKind _ = False"

text \<open>
  The ownership link \<open>node.parent\<close> is read only by \<open>isTopLevel\<close>, which follows it
  upward and looks at kinds. \<open>UpNode\<close> is a node as seen along that link: its kind and
  its parent, \<open>None\<close> where the parent is \<open>undefined\<close>.
\<close>

datatype UpNode = UpNode (up_kind: SyntaxKind) (up_parent: "UpNode option")

text \<open>
  A node: its kind, its parent link, its ordered children (tokens included, as
  \<open>getChildren()\<close> returns them), its full text, and the line and character of its
  start.
\<close>

datatype Node =
  Node (kind: SyntaxKind) (parent: "UpNode option") (getChildren: "Node list")
       (getFullText: string) (getLineAndCharacter: "nat \<times> nat")

definition upward :: "Node \<Rightarrow> UpNode" where
  "upward node = UpNode (kind node) (parent node)"

abbreviation isToken :: "Node \<Rightarrow> bool" where
  "isToken node \<equiv> isTokenKind (kind node)"

abbreviation isCatchClause :: "Node \<Rightarrow> bool" where
  "isCatchClause node \<equiv> kind node = CatchClause"

abbreviation isConditionalExpression :: "Node \<Rightarrow> bool" where
  "isConditionalExpression node \<equiv> kind node = ConditionalExpression"

abbreviation isForInStatement :: "Node \<Rightarrow> bool" where
  "isForInStatement node \<equiv> kind node = ForInStatement"

abbreviation isForOfStatement :: "Node \<Rightarrow> bool" where
  "isForOfStatement node \<equiv> kind node = ForOfStatement"

abbreviation isForStatement :: "Node \<Rightarrow> bool" where
  "isForStatement node \<equiv> kind node = ForStatement"

abbreviation isIfStatement :: "Node \<Rightarrow> bool" where
  "isIfStatement node \<equiv> kind node = IfStatement"

abbreviation isSwitchStatement :: "Node \<Rightarrow> bool" where
  "isSwitchStatement node \<equiv> kind node = SwitchStatement"

abbreviation isWhileStatement :: "Node \<Rightarrow> bool" where
  "isWhileStatement node \<equiv> kind node = WhileStatement"

abbreviation isDoStatement :: "Node \<Rightarrow> bool" where
  "isDoStatement node \<equiv> kind node = DoStatement"

abbreviation isArrowFunction :: "Node \<Rightarrow> bool" where
  "isArrowFunction node \<equiv> kind node = ArrowFunction"

abbreviation isFunctionDeclaration :: "Node \<Rightarrow> bool" where
  "isFunctionDeclaration node \<equiv> kind node = FunctionDeclaration"

abbreviation isFunctionExpression :: "Node \<Rightarrow> bool" where
  "isFunctionExpression node \<equiv> kind node = FunctionExpression"

abbreviation isMethodDeclaration :: "Node \<Rightarrow> bool" where
  "isMethodDeclaration node \<equiv> kind node = MethodDeclaration"

abbreviation isBlock :: "Node \<Rightarrow> bool" where
  "isBlock node \<equiv> kind node = Block"

abbreviation isIdentifier :: "Node \<Rightarrow> bool" where
  "isIdentifier node \<equiv> kind node = Identifier"

abbreviation isBreakOrContinueStatement :: "Node \<Rightarrow> bool" where
  "isBreakOrContinueStatement node \<equiv>
     kind node = BreakStatement \<or> kind node = ContinueStatement"

section \<open>Results and errors\<close>

text \<open>The record \<open>OutputElem\<close> of the result tree.\<close>

datatype OutputElem =
  OutputElem (name: string) (score: nat) (line: nat) (column: nat)
             (inner: "OutputElem list")

text \<open>
  What the engine can throw: \<open>UnexpectedNodeError\<close> with the offending node, the error
  of an exhausted child iterator, and the \<open>TypeError\<close> of reading a property of
  \<open>undefined\<close>.
\<close>

datatype error = UnexpectedNodeError Node | IteratorDone | TypeError

definition andThen :: "error + 'a \<Rightarrow> ('a \<Rightarrow> error + 'b) \<Rightarrow> error + 'b" where
  "andThen m f = (case m of Inl e \<Rightarrow> Inl e | Inr x \<Rightarrow> f x)"

lemma andThen_simps [simp]:
  "andThen (Inl e) f = Inl e"
  "andThen (Inr x) f = f x"
  by (simp_all add: andThen_def)

lemma andThen_cong [fundef_cong]:
  "m = m' \<Longrightarrow> (\<And>x. m' = Inr x \<Longrightarrow> f x = g x) \<Longrightarrow> andThen m f = andThen m' g"
  by (cases m') (simp_all add: andThen_def)

lemma andThen_Inr_iff:
  "andThen m f = Inr y \<longleftrightarrow> (\<exists>x. m = Inr x \<and> f x = Inr y)"
  by (cases m) simp_all

text \<open>
  Modelled from the spec: \<open>throwingIterator\<close> of the module \<open>util\<close>, which is not among
  the sources. It wraps an iterator in a function that returns the next element and
  throws once the iterator is exhausted. The iterator over \<open>node.getChildren()\<close> is the
  list of children not yet consumed.
\<close>

fun nextChild :: "Node list \<Rightarrow> error + (Node \<times> Node list)" where
  "nextChild [] = Inl IteratorDone"
| "nextChild (child # it) = Inr (child, it)"

lemma nextChild_Inr: "nextChild it = Inr (c, it') \<longleftrightarrow> it = c # it'"
  by (cases it) auto

section \<open>Top-level classifier\<close>

text \<open>
  The loop \<open>while (ts.isBlock(h)) h = h.parent\<close>. Reading the kind of an \<open>undefined\<close>
  parent throws.
\<close>

fun climbBlocks :: "UpNode option \<Rightarrow> error + UpNode" where
  "climbBlocks None = Inl TypeError"
| "climbBlocks (Some (UpNode k p)) =
     (if k = Block then climbBlocks p else Inr (UpNode k p))"

lemma climbBlocks_size: "climbBlocks p = Inr h \<Longrightarrow> size h < size_option size p"
  by (induction p rule: climbBlocks.induct) (auto split: if_splits)

function isTopLevel :: "UpNode \<Rightarrow> error + bool" where
  "isTopLevel node =
     (case up_parent node of
        None \<Rightarrow> Inr True
      | Some par \<Rightarrow>
          if up_kind par = SourceFile then Inr True
          else andThen (climbBlocks (Some par)) (\<lambda>highestNonBlockAncestor.
                 if highestNonBlockAncestor = par then Inr False
                 else isTopLevel highestNonBlockAncestor))"
  by pat_completeness auto
termination
proof (relation "measure size")
  show "wf (measure size)" by simp
next
  fix node :: UpNode and x2 h
  assume a: "up_parent node = Some x2" "climbBlocks (Some x2) = Inr h"
  from climbBlocks_size [OF a(2)] have "size h \<le> size x2" by simp
  moreover from a(1) have "size x2 < size node" by (cases node) simp
  ultimately show "(h, node) \<in> measure size" by simp
qed

declare isTopLevel.simps [simp del]

section \<open>Cost objects\<close>

text \<open>
  The fields \<open>_score\<close> and \<open>inner\<close> of \<open>AbstractNodeCost\<close>. The constructor initialises
  them to 0 and the empty array and then runs \<open>calculate\<close>, so a cost object is the state
  that \<open>calculate\<close> leaves behind.
\<close>

record AbstractNodeCost =
  cost_score :: nat
  cost_inner :: "OutputElem list"

definition newCost :: AbstractNodeCost where
  "newCost = \<lparr>cost_score = 0, cost_inner = []\<rparr>"

text \<open>
  The handlers call the global \<open>calcElemCost\<close>, which in turn builds the handlers. The
  handlers are written here over a parameter \<open>calc\<close> standing for that function; the
  recursion is closed in \<open>calcElemCost\<close> below.
\<close>

type_synonym calc = "Node \<Rightarrow> nat \<Rightarrow> error + OutputElem"

definition includeNode :: "calc \<Rightarrow> Node \<Rightarrow> nat \<Rightarrow> AbstractNodeCost \<Rightarrow> error + AbstractNodeCost" where
  "includeNode calc node depth obj =
     andThen (calc node depth) (\<lambda>elem.
       Inr (obj\<lparr>cost_inner := cost_inner obj @ [elem],
                cost_score := cost_score obj + score elem\<rparr>))"

fun includeAll :: "calc \<Rightarrow> Node list \<Rightarrow> nat \<Rightarrow> AbstractNodeCost \<Rightarrow> error + AbstractNodeCost" where
  "includeAll calc [] depth obj = Inr obj"
| "includeAll calc (child # nodes) depth obj =
     andThen (includeNode calc child depth obj) (includeAll calc nodes depth)"

text \<open>
  \<open>AbstractFunctionCost\<close> declares \<open>topLevel\<close> as a parameter property with the default
  \<open>isTopLevel(node)\<close>. The default is evaluated when the constructor is entered, the
  property is assigned after \<open>super(node, depth)\<close> returns, and \<open>calculate\<close> runs inside
  that super call: \<open>calculate\<close> reads \<open>this.topLevel\<close> before it is assigned, that is
  \<open>undefined\<close>. The field is a \<open>bool option\<close>, \<open>None\<close> for \<open>undefined\<close>, and the
  conditional \<open>this.topLevel ? a : b\<close> tests its truthiness.
\<close>

definition truthy :: "bool option \<Rightarrow> bool" where
  "truthy v = (case v of None \<Rightarrow> False | Some b \<Rightarrow> b)"

definition AbstractFunctionCost ::
  "(bool option \<Rightarrow> error + AbstractNodeCost) \<Rightarrow> Node \<Rightarrow> error + AbstractNodeCost" where
  "AbstractFunctionCost calculate node =
     andThen (isTopLevel (upward node)) (\<lambda>topLevel. calculate None)"

subsection \<open>Arrow function\<close>

definition ArrowFunctionCost_calculate ::
  "calc \<Rightarrow> Node \<Rightarrow> nat \<Rightarrow> bool option \<Rightarrow> error + AbstractNodeCost" where
  "ArrowFunctionCost_calculate calc node depth topLevel =
     andThen (nextChild (getChildren node)) (\<lambda>(_, it).
     andThen (nextChild it) (\<lambda>(c, it).
     andThen (includeNode calc c depth newCost) (\<lambda>obj.
     andThen (nextChild it) (\<lambda>(_, it).
     andThen (nextChild it) (\<lambda>(_, it).
     andThen (nextChild it) (\<lambda>(c, it).
       includeNode calc c (if truthy topLevel then depth else depth + 1) obj))))))"

definition ArrowFunctionCost :: "calc \<Rightarrow> Node \<Rightarrow> nat \<Rightarrow> error + AbstractNodeCost" where
  "ArrowFunctionCost calc node depth =
     AbstractFunctionCost (ArrowFunctionCost_calculate calc node depth) node"

subsection \<open>Conditional expression\<close>

text \<open>
  The loop over the children with the array \<open>childNodesToAggregate\<close>. In the last branch
  the source calls \<open>childNodesToAggregate.push()\<close> with no argument, which appends
  nothing.
\<close>

fun ConditionalExpressionCost_loop ::
  "calc \<Rightarrow> nat \<Rightarrow> Node list \<Rightarrow> Node list \<Rightarrow> AbstractNodeCost \<Rightarrow> error + AbstractNodeCost" where
  "ConditionalExpressionCost_loop calc depth [] childNodesToAggregate obj =
     includeAll calc childNodesToAggregate depth obj"
| "ConditionalExpressionCost_loop calc depth (child # rest) childNodesToAggregate obj =
     (if isToken child \<and> kind child = QuestionToken then
        andThen (includeAll calc childNodesToAggregate depth obj)
          (ConditionalExpressionCost_loop calc depth rest [])
      else if isToken child \<and> kind child = ColonToken then
        andThen (includeAll calc childNodesToAggregate (depth + 1) obj)
          (ConditionalExpressionCost_loop calc depth rest [])
      else
        ConditionalExpressionCost_loop calc depth rest (childNodesToAggregate @ []) obj)"

definition ConditionalExpressionCost :: "calc \<Rightarrow> Node \<Rightarrow> nat \<Rightarrow> error + AbstractNodeCost" where
  "ConditionalExpressionCost calc node depth =
     ConditionalExpressionCost_loop calc depth (getChildren node) [] newCost"

subsection \<open>Do statement\<close>

definition DoStatementCost :: "calc \<Rightarrow> Node \<Rightarrow> nat \<Rightarrow> error + AbstractNodeCost" where
  "DoStatementCost calc node depth =
     andThen (nextChild (getChildren node)) (\<lambda>(_, it).
     andThen (nextChild it) (\<lambda>(c, it).
     andThen (includeNode calc c (depth + 1) newCost) (\<lambda>obj.
     andThen (nextChild it) (\<lambda>(_, it).
     andThen (nextChild it) (\<lambda>(_, it).
     andThen (nextChild it) (\<lambda>(c, it).
       includeNode calc c depth obj))))))"

subsection \<open>If statement\<close>

text \<open>
  One iteration of \<open>while (true)\<close> per equation; the loop is left by \<open>break\<close> after the
  else branch, or by an exception.
\<close>

function IfStatementCost_loop ::
  "calc \<Rightarrow> nat \<Rightarrow> Node list \<Rightarrow> AbstractNodeCost \<Rightarrow> error + AbstractNodeCost" where
  "IfStatementCost_loop calc depth it0 obj =
     andThen (nextChild it0) (\<lambda>(child, it).
       if isToken child \<and> kind child = IfKeyword then
         andThen (nextChild it) (\<lambda>(_, it).
         andThen (nextChild it) (\<lambda>(c, it).
         andThen (includeNode calc c depth obj) (\<lambda>obj.
           IfStatementCost_loop calc depth it obj)))
       else if isToken child \<and> kind child = CloseParenToken then
         andThen (nextChild it) (\<lambda>(c, it).
         andThen (includeNode calc c (depth + 1) obj) (\<lambda>obj.
           IfStatementCost_loop calc depth it obj))
       else if isToken child \<and> kind child = ElseKeyword then
         andThen (nextChild it) (\<lambda>(c, it).
           includeNode calc c (depth + 1) obj)
       else Inl (UnexpectedNodeError child))"
  by pat_completeness auto
termination
  by (relation "measure (\<lambda>(calc, depth, it, obj). length it)")
     (auto simp: nextChild_Inr)

declare IfStatementCost_loop.simps [simp del]

definition IfStatementCost :: "calc \<Rightarrow> Node \<Rightarrow> nat \<Rightarrow> error + AbstractNodeCost" where
  "IfStatementCost calc node depth =
     IfStatementCost_loop calc depth (getChildren node) newCost"

subsection \<open>For, for-in and for-of statements\<close>

text \<open>
  The inner loop consumes children up to the close parenthesis and returns the cost
  object together with the rest of the iterator.
\<close>

function ForLikeStatementCost_loop ::
  "calc \<Rightarrow> nat \<Rightarrow> Node list \<Rightarrow> AbstractNodeCost \<Rightarrow> error + (AbstractNodeCost \<times> Node list)" where
  "ForLikeStatementCost_loop calc depth it0 obj =
     andThen (nextChild it0) (\<lambda>(child, it).
       if isToken child \<and> kind child = CloseParenToken then Inr (obj, it)
       else andThen (includeNode calc child depth obj) (\<lambda>obj.
              ForLikeStatementCost_loop calc depth it obj))"
  by pat_completeness auto
termination
  by (relation "measure (\<lambda>(calc, depth, it, obj). length it)")
     (auto simp: nextChild_Inr)

declare ForLikeStatementCost_loop.simps [simp del]

definition ForLikeStatementCost :: "calc \<Rightarrow> Node \<Rightarrow> nat \<Rightarrow> error + AbstractNodeCost" where
  "ForLikeStatementCost calc node depth =
     andThen (nextChild (getChildren node)) (\<lambda>(_, it).
     andThen (nextChild it) (\<lambda>(_, it).
     andThen (ForLikeStatementCost_loop calc depth it newCost) (\<lambda>(obj, it).
     andThen (nextChild it) (\<lambda>(c, it).
       includeNode calc c (depth + 1) obj))))"

subsection \<open>Function declaration\<close>

abbreviation isSyntaxList :: "Node \<Rightarrow> bool" where
  "isSyntaxList node \<equiv> kind node = SyntaxList"

function FunctionDeclarationCost_loop ::
  "calc \<Rightarrow> nat \<Rightarrow> Node list \<Rightarrow> AbstractNodeCost \<Rightarrow> error + AbstractNodeCost" where
  "FunctionDeclarationCost_loop calc depth it0 obj =
     andThen (nextChild it0) (\<lambda>(child, it).
       if isSyntaxList child then
         andThen (includeNode calc child depth obj) (\<lambda>obj.
           FunctionDeclarationCost_loop calc depth it obj)
       else if isBlock child then includeNode calc child (depth + 1) obj
       else FunctionDeclarationCost_loop calc depth it obj)"
  by pat_completeness auto
termination
  by (relation "measure (\<lambda>(calc, depth, it, obj). length it)")
     (auto simp: nextChild_Inr)

declare FunctionDeclarationCost_loop.simps [simp del]

definition FunctionDeclarationCost_calculate ::
  "calc \<Rightarrow> Node \<Rightarrow> nat \<Rightarrow> bool option \<Rightarrow> error + AbstractNodeCost" where
  "FunctionDeclarationCost_calculate calc node depth topLevel =
     FunctionDeclarationCost_loop calc depth (getChildren node) newCost"

definition FunctionDeclarationCost :: "calc \<Rightarrow> Node \<Rightarrow> nat \<Rightarrow> error + AbstractNodeCost" where
  "FunctionDeclarationCost calc node depth =
     AbstractFunctionCost (FunctionDeclarationCost_calculate calc node depth) node"

subsection \<open>Function expression\<close>

text \<open>
  \<open>children.slice(-1)\<close> is the array of the last child (empty when there is none);
  \<open>children.slice(0, -1)[0]\<close> is the first of the children before the last, \<open>undefined\<close>
  when there is none, and \<open>calcElemCost(undefined)\<close> throws.
\<close>

definition FunctionExpressionCost_calculate ::
  "calc \<Rightarrow> Node \<Rightarrow> nat \<Rightarrow> bool option \<Rightarrow> error + AbstractNodeCost" where
  "FunctionExpressionCost_calculate calc node depth topLevel =
     (let children = getChildren node;
          functionBody = drop (length children - 1) children;
          functionDecl = (case take (length children - 1) children of
                            [] \<Rightarrow> None | c # _ \<Rightarrow> Some c)
      in andThen (includeAll calc functionBody depth newCost) (\<lambda>obj.
           case functionDecl of
             None \<Rightarrow> Inl TypeError
           | Some c \<Rightarrow> includeNode calc c (depth + 1) obj))"

definition FunctionExpressionCost :: "calc \<Rightarrow> Node \<Rightarrow> nat \<Rightarrow> error + AbstractNodeCost" where
  "FunctionExpressionCost calc node depth =
     AbstractFunctionCost (FunctionExpressionCost_calculate calc node depth) node"

subsection \<open>Method declaration\<close>

function MethodDeclarationCost_loop ::
  "calc \<Rightarrow> nat \<Rightarrow> bool option \<Rightarrow> Node list \<Rightarrow> AbstractNodeCost \<Rightarrow> error + AbstractNodeCost" where
  "MethodDeclarationCost_loop calc depth topLevel it0 obj =
     andThen (nextChild it0) (\<lambda>(child, it).
       if isBlock child then
         andThen (nextChild it) (\<lambda>(c, it).
           includeNode calc c (if truthy topLevel then depth else depth + 1) obj)
       else andThen (includeNode calc child depth obj) (\<lambda>obj.
              MethodDeclarationCost_loop calc depth topLevel it obj))"
  by pat_completeness auto
termination
  by (relation "measure (\<lambda>(calc, depth, topLevel, it, obj). length it)")
     (auto simp: nextChild_Inr)

declare MethodDeclarationCost_loop.simps [simp del]

definition MethodDeclarationCost_calculate ::
  "calc \<Rightarrow> Node \<Rightarrow> nat \<Rightarrow> bool option \<Rightarrow> error + AbstractNodeCost" where
  "MethodDeclarationCost_calculate calc node depth topLevel =
     MethodDeclarationCost_loop calc depth topLevel (getChildren node) newCost"

definition MethodDeclarationCost :: "calc \<Rightarrow> Node \<Rightarrow> nat \<Rightarrow> error + AbstractNodeCost" where
  "MethodDeclarationCost calc node depth =
     AbstractFunctionCost (MethodDeclarationCost_calculate calc node depth) node"

subsection \<open>Switch statement\<close>

definition SwitchStatementCost :: "calc \<Rightarrow> Node \<Rightarrow> nat \<Rightarrow> error + AbstractNodeCost" where
  "SwitchStatementCost calc node depth =
     andThen (nextChild (getChildren node)) (\<lambda>(_, it).
     andThen (nextChild it) (\<lambda>(_, it).
     andThen (nextChild it) (\<lambda>(c, it).
     andThen (includeNode calc c depth newCost) (\<lambda>obj.
     andThen (nextChild it) (\<lambda>(_, it).
     andThen (nextChild it) (\<lambda>(c, it).
       includeNode calc c (depth + 1) obj))))))"

subsection \<open>While statement\<close>

text \<open>
  The body of \<open>while (true)\<close> holds two conditionals in sequence: the first has no
  \<open>else\<close>, the second either breaks or throws. Every path through the body leaves the
  loop, so the body runs once.
\<close>

definition WhileStatementCost :: "calc \<Rightarrow> Node \<Rightarrow> nat \<Rightarrow> error + AbstractNodeCost" where
  "WhileStatementCost calc node depth =
     andThen (nextChild (getChildren node)) (\<lambda>(child, it).
     andThen (if isToken child \<and> kind child = WhileKeyword then
                andThen (nextChild it) (\<lambda>(_, it).
                andThen (nextChild it) (\<lambda>(c, it).
                andThen (includeNode calc c depth newCost) (\<lambda>obj. Inr (obj, it))))
              else Inr (newCost, it)) (\<lambda>(obj, it).
       if isToken child \<and> kind child = CloseParenToken then
         andThen (nextChild it) (\<lambda>(c, it). includeNode calc c (depth + 1) obj)
       else Inl (UnexpectedNodeError child)))"

subsection \<open>File\<close>

definition FileCost :: "calc \<Rightarrow> Node \<Rightarrow> error + AbstractNodeCost" where
  "FileCost calc file = includeAll calc (getChildren file) 0 newCost"

section \<open>Dispatcher\<close>

fun hasIdentifierChild :: "Node list \<Rightarrow> bool" where
  "hasIdentifierChild [] = False"
| "hasIdentifierChild (child # rest) =
     (if isIdentifier child then True else hasIdentifierChild rest)"

definition isBreakOrContinueToLabel :: "Node \<Rightarrow> bool" where
  "isBreakOrContinueToLabel node =
     (if isBreakOrContinueStatement node then hasIdentifierChild (getChildren node)
      else False)"

definition isForLikeStatement :: "Node \<Rightarrow> bool" where
  "isForLikeStatement node \<longleftrightarrow>
     isForInStatement node \<or> isForOfStatement node \<or> isForStatement node"

text \<open>
  \<open>this.inner.push(...inner); this._score += score\<close> for the cost object of a handler.
\<close>

definition absorb :: "AbstractNodeCost \<Rightarrow> AbstractNodeCost \<Rightarrow> AbstractNodeCost" where
  "absorb obj sub =
     obj\<lparr>cost_inner := cost_inner obj @ cost_inner sub,
         cost_score := cost_score obj + cost_score sub\<rparr>"

definition NodeCost :: "calc \<Rightarrow> Node \<Rightarrow> nat \<Rightarrow> error + AbstractNodeCost" where
  "NodeCost calc node depth =
     (let obj0 = newCost;
          obj1 = (if isCatchClause node
                     \<or> isConditionalExpression node
                     \<or> isForInStatement node
                     \<or> isForOfStatement node
                     \<or> isForStatement node
                     \<or> isIfStatement node
                     \<or> isSwitchStatement node
                     \<or> isWhileStatement node
                     \<or> isBreakOrContinueToLabel node
                  then obj0\<lparr>cost_score := cost_score obj0 + 1\<rparr> else obj0);
          obj = (if depth > 0 \<and> (
                     isConditionalExpression node
                     \<or> isForInStatement node
                     \<or> isForOfStatement node
                     \<or> isForStatement node
                     \<or> isIfStatement node
                     \<or> isSwitchStatement node
                     \<or> isWhileStatement node)
                 then obj1\<lparr>cost_score := cost_score obj1 + depth\<rparr> else obj1)
      in if isArrowFunction node then
           andThen (ArrowFunctionCost calc node depth) (\<lambda>sub. Inr (absorb obj sub))
         else if isCatchClause node then
           includeAll calc (getChildren node) (depth + 1) obj
         else if isConditionalExpression node then
           andThen (ConditionalExpressionCost calc node depth) (\<lambda>sub. Inr (absorb obj sub))
         else if isDoStatement node then
           andThen (DoStatementCost calc node depth) (\<lambda>sub. Inr (absorb obj sub))
         else if isForLikeStatement node then
           andThen (ForLikeStatementCost calc node depth) (\<lambda>sub. Inr (absorb obj sub))
         else if isFunctionDeclaration node then
           andThen (FunctionDeclarationCost calc node depth) (\<lambda>sub. Inr (absorb obj sub))
         else if isFunctionExpression node then
           andThen (FunctionExpressionCost calc node depth) (\<lambda>sub. Inr (absorb obj sub))
         else if isIfStatement node then
           andThen (IfStatementCost calc node depth) (\<lambda>sub. Inr (absorb obj sub))
         else if isMethodDeclaration node then
           andThen (MethodDeclarationCost calc node depth) (\<lambda>sub. Inr (absorb obj sub))
         else if isSwitchStatement node then
           andThen (SwitchStatementCost calc node depth) (\<lambda>sub. Inr (absorb obj sub))
         else if isWhileStatement node then
           andThen (WhileStatementCost calc node depth) (\<lambda>sub. Inr (absorb obj sub))
         else
           includeAll calc (getChildren node) depth obj)"

section \<open>Scoring a node\<close>

text \<open>
  The first loop of \<open>calcElemCost\<close>: every child is scored by \<open>calcElemCost(child)\<close>,
  whose depth parameter takes its default 0.
\<close>

fun calcElemCost_children ::
  "calc \<Rightarrow> Node list \<Rightarrow> nat \<times> OutputElem list \<Rightarrow> error + (nat \<times> OutputElem list)" where
  "calcElemCost_children calc [] acc = Inr acc"
| "calcElemCost_children calc (child # rest) acc =
     andThen (calc child 0) (\<lambda>elem.
       calcElemCost_children calc rest (fst acc + score elem, snd acc @ [elem]))"

text \<open>
  Every handler applies \<open>calc\<close> to children of its node only. These congruence rules
  say so; they carry the termination proof of \<open>calcElemCost\<close>.
\<close>

lemma includeNode_cong:
  "f c d = g c d \<Longrightarrow> includeNode f c d obj = includeNode g c d obj"
  by (simp add: includeNode_def)

lemma includeAll_cong:
  "(\<And>c d. c \<in> set nodes \<Longrightarrow> f c d = g c d) \<Longrightarrow>
   includeAll f nodes depth obj = includeAll g nodes depth obj"
proof (induction nodes arbitrary: obj)
  case Nil
  show ?case by simp
next
  case (Cons c nodes)
  have "includeNode f c depth obj = includeNode g c depth obj"
    by (rule includeNode_cong) (simp add: Cons.prems)
  moreover have "includeAll f nodes depth = includeAll g nodes depth"
    by (rule ext) (simp add: Cons.IH Cons.prems)
  ultimately show ?case by simp
qed

lemma calcElemCost_children_cong [fundef_cong]:
  "(\<And>c d. c \<in> set nodes \<Longrightarrow> f c d = g c d) \<Longrightarrow>
   calcElemCost_children f nodes acc = calcElemCost_children g nodes acc"
  by (induction nodes arbitrary: acc) simp_all

lemma ArrowFunctionCost_cong:
  "(\<And>c d. c \<in> set (getChildren node) \<Longrightarrow> f c d = g c d) \<Longrightarrow>
   ArrowFunctionCost f node depth = ArrowFunctionCost g node depth"
  unfolding ArrowFunctionCost_def AbstractFunctionCost_def ArrowFunctionCost_calculate_def
  by (auto intro!: andThen_cong includeNode_cong simp: nextChild_Inr)

lemma DoStatementCost_cong:
  "(\<And>c d. c \<in> set (getChildren node) \<Longrightarrow> f c d = g c d) \<Longrightarrow>
   DoStatementCost f node depth = DoStatementCost g node depth"
  unfolding DoStatementCost_def
  by (auto intro!: andThen_cong includeNode_cong simp: nextChild_Inr)

lemma SwitchStatementCost_cong:
  "(\<And>c d. c \<in> set (getChildren node) \<Longrightarrow> f c d = g c d) \<Longrightarrow>
   SwitchStatementCost f node depth = SwitchStatementCost g node depth"
  unfolding SwitchStatementCost_def
  by (auto intro!: andThen_cong includeNode_cong simp: nextChild_Inr)

lemma WhileStatementCost_cong:
  "(\<And>c d. c \<in> set (getChildren node) \<Longrightarrow> f c d = g c d) \<Longrightarrow>
   WhileStatementCost f node depth = WhileStatementCost g node depth"
  unfolding WhileStatementCost_def
  by (auto intro!: andThen_cong includeNode_cong simp: nextChild_Inr)


lemma ConditionalExpressionCost_loop_cong:
  "(\<And>c d. c \<in> set agg \<Longrightarrow> f c d = g c d) \<Longrightarrow>
   ConditionalExpressionCost_loop f depth it agg obj =
   ConditionalExpressionCost_loop g depth it agg obj"
proof (induction it arbitrary: agg obj)
  case Nil
  have "includeAll f agg depth obj = includeAll g agg depth obj"
    by (rule includeAll_cong) (rule Nil.prems)
  then show ?case by simp
next
  case (Cons child rest)
  have a: "includeAll f agg d obj = includeAll g agg d obj" for d
    by (rule includeAll_cong) (rule Cons.prems)
  have e: "ConditionalExpressionCost_loop f depth rest [] =
           ConditionalExpressionCost_loop g depth rest []"
    by (rule ext, rule Cons.IH) simp
  have i: "ConditionalExpressionCost_loop f depth rest agg obj =
           ConditionalExpressionCost_loop g depth rest agg obj"
    by (rule Cons.IH) (rule Cons.prems)
  show ?case by (simp add: a e i)
qed

lemma ConditionalExpressionCost_cong:
  "ConditionalExpressionCost f node depth = ConditionalExpressionCost g node depth"
  unfolding ConditionalExpressionCost_def
  by (rule ConditionalExpressionCost_loop_cong) simp

lemma IfStatementCost_loop_cong:
  "(\<And>c d. c \<in> set it \<Longrightarrow> f c d = g c d) \<Longrightarrow>
   IfStatementCost_loop f depth it obj = IfStatementCost_loop g depth it obj"
proof (induction "length it" arbitrary: it obj rule: less_induct)
  case less
  have ih: "IfStatementCost_loop f depth it' obj' = IfStatementCost_loop g depth it' obj'"
    if "length it' < length it" "set it' \<subseteq> set it" for it' obj'
    using that less.prems by (intro less.hyps) auto
  show ?case
    apply (subst IfStatementCost_loop.simps [of f])
    apply (subst IfStatementCost_loop.simps [of g])
    apply (auto intro!: andThen_cong includeNode_cong ih less.prems simp: nextChild_Inr)
    done
qed

lemma ForLikeStatementCost_loop_cong:
  "(\<And>c d. c \<in> set it \<Longrightarrow> f c d = g c d) \<Longrightarrow>
   ForLikeStatementCost_loop f depth it obj = ForLikeStatementCost_loop g depth it obj"
proof (induction "length it" arbitrary: it obj rule: less_induct)
  case less
  have ih: "ForLikeStatementCost_loop f depth it' obj' = ForLikeStatementCost_loop g depth it' obj'"
    if "length it' < length it" "set it' \<subseteq> set it" for it' obj'
    using that less.prems by (intro less.hyps) auto
  show ?case
    apply (subst ForLikeStatementCost_loop.simps [of f])
    apply (subst ForLikeStatementCost_loop.simps [of g])
    apply (auto intro!: andThen_cong includeNode_cong ih less.prems simp: nextChild_Inr)
    done
qed

lemma FunctionDeclarationCost_loop_cong:
  "(\<And>c d. c \<in> set it \<Longrightarrow> f c d = g c d) \<Longrightarrow>
   FunctionDeclarationCost_loop f depth it obj = FunctionDeclarationCost_loop g depth it obj"
proof (induction "length it" arbitrary: it obj rule: less_induct)
  case less
  have ih: "FunctionDeclarationCost_loop f depth it' obj' = FunctionDeclarationCost_loop g depth it' obj'"
    if "length it' < length it" "set it' \<subseteq> set it" for it' obj'
    using that less.prems by (intro less.hyps) auto
  show ?case
    apply (subst FunctionDeclarationCost_loop.simps [of f])
    apply (subst FunctionDeclarationCost_loop.simps [of g])
    apply (auto intro!: andThen_cong includeNode_cong ih less.prems simp: nextChild_Inr)
    done
qed

lemma MethodDeclarationCost_loop_cong:
  "(\<And>c d. c \<in> set it \<Longrightarrow> f c d = g c d) \<Longrightarrow>
   MethodDeclarationCost_loop f depth topL it obj = MethodDeclarationCost_loop g depth topL it obj"
proof (induction "length it" arbitrary: it obj rule: less_induct)
  case less
  have ih: "MethodDeclarationCost_loop f depth topL it' obj' = MethodDeclarationCost_loop g depth topL it' obj'"
    if "length it' < length it" "set it' \<subseteq> set it" for it' obj'
    using that less.prems by (intro less.hyps) auto
  show ?case
    apply (subst MethodDeclarationCost_loop.simps [of f])
    apply (subst MethodDeclarationCost_loop.simps [of g])
    apply (auto intro!: andThen_cong includeNode_cong ih less.prems simp: nextChild_Inr)
    done
qed

lemma IfStatementCost_cong:
  "(\<And>c d. c \<in> set (getChildren node) \<Longrightarrow> f c d = g c d) \<Longrightarrow>
   IfStatementCost f node depth = IfStatementCost g node depth"
  unfolding IfStatementCost_def by (rule IfStatementCost_loop_cong)

lemma ForLikeStatementCost_loop_rest:
  "ForLikeStatementCost_loop calc depth it obj = Inr (obj', it') \<Longrightarrow> set it' \<subseteq> set it"
proof (induction "length it" arbitrary: it obj rule: less_induct)
  case less
  from less.prems show ?case
    apply (subst (asm) ForLikeStatementCost_loop.simps)
    apply (auto simp: andThen_Inr_iff nextChild_Inr split: if_splits dest!: less.hyps [rotated])
    done
qed

lemma ForLikeStatementCost_cong:
  "(\<And>c d. c \<in> set (getChildren node) \<Longrightarrow> f c d = g c d) \<Longrightarrow>
   ForLikeStatementCost f node depth = ForLikeStatementCost g node depth"
  unfolding ForLikeStatementCost_def
  by (auto intro!: andThen_cong includeNode_cong ForLikeStatementCost_loop_cong
           simp: nextChild_Inr dest!: ForLikeStatementCost_loop_rest)

lemma FunctionDeclarationCost_cong:
  "(\<And>c d. c \<in> set (getChildren node) \<Longrightarrow> f c d = g c d) \<Longrightarrow>
   FunctionDeclarationCost f node depth = FunctionDeclarationCost g node depth"
  unfolding FunctionDeclarationCost_def AbstractFunctionCost_def FunctionDeclarationCost_calculate_def
  by (auto intro!: andThen_cong FunctionDeclarationCost_loop_cong)

lemma MethodDeclarationCost_cong:
  "(\<And>c d. c \<in> set (getChildren node) \<Longrightarrow> f c d = g c d) \<Longrightarrow>
   MethodDeclarationCost f node depth = MethodDeclarationCost g node depth"
  unfolding MethodDeclarationCost_def AbstractFunctionCost_def MethodDeclarationCost_calculate_def
  by (auto intro!: andThen_cong MethodDeclarationCost_loop_cong)

lemma take_Cons_mem: "take n xs = a # r \<Longrightarrow> a \<in> set xs"
  by (metis in_set_takeD list.set_intros(1))

lemma FunctionExpressionCost_cong:
  "(\<And>c d. c \<in> set (getChildren node) \<Longrightarrow> f c d = g c d) \<Longrightarrow>
   FunctionExpressionCost f node depth = FunctionExpressionCost g node depth"
  unfolding FunctionExpressionCost_def AbstractFunctionCost_def FunctionExpressionCost_calculate_def Let_def
  by (auto intro!: andThen_cong includeNode_cong includeAll_cong
           dest: in_set_dropD take_Cons_mem split: option.splits list.splits)


lemma NodeCost_cong [fundef_cong]:
  assumes "\<And>c d. c \<in> set (getChildren node) \<Longrightarrow> f c d = g c d"
  shows "NodeCost f node depth = NodeCost g node depth"
proof -
  note h = assms
  have "ArrowFunctionCost f node depth = ArrowFunctionCost g node depth"
    and "includeAll f (getChildren node) = includeAll g (getChildren node)"
    and "ConditionalExpressionCost f node depth = ConditionalExpressionCost g node depth"
    and "DoStatementCost f node depth = DoStatementCost g node depth"
    and "ForLikeStatementCost f node depth = ForLikeStatementCost g node depth"
    and "FunctionDeclarationCost f node depth = FunctionDeclarationCost g node depth"
    and "FunctionExpressionCost f node depth = FunctionExpressionCost g node depth"
    and "IfStatementCost f node depth = IfStatementCost g node depth"
    and "MethodDeclarationCost f node depth = MethodDeclarationCost g node depth"
    and "SwitchStatementCost f node depth = SwitchStatementCost g node depth"
    and "WhileStatementCost f node depth = WhileStatementCost g node depth"
    subgoal by (rule ArrowFunctionCost_cong) (rule h)
    subgoal by (intro ext includeAll_cong) (rule h)
    subgoal by (rule ConditionalExpressionCost_cong)
    subgoal by (rule DoStatementCost_cong) (rule h)
    subgoal by (rule ForLikeStatementCost_cong) (rule h)
    subgoal by (rule FunctionDeclarationCost_cong) (rule h)
    subgoal by (rule FunctionExpressionCost_cong) (rule h)
    subgoal by (rule IfStatementCost_cong) (rule h)
    subgoal by (rule MethodDeclarationCost_cong) (rule h)
    subgoal by (rule SwitchStatementCost_cong) (rule h)
    subgoal by (rule WhileStatementCost_cong) (rule h)
    done
  then show ?thesis unfolding NodeCost_def by (simp only:)
qed

text \<open>
  \<open>calcElemCost(node, depth = 0)\<close>: the loop over the children, then the \<open>NodeCost\<close>
  of the node at \<open>depth\<close>, whose score and inner results are added to those of the loop.
\<close>

function calcElemCost :: "Node \<Rightarrow> nat \<Rightarrow> error + OutputElem" where
  "calcElemCost node depth =
     andThen (calcElemCost_children calcElemCost (getChildren node) (0, [])) (\<lambda>(score0, inner0).
     andThen (NodeCost calcElemCost node depth) (\<lambda>nodeCost.
       Inr (OutputElem (getFullText node)
              (score0 + cost_score nodeCost)
              (fst (getLineAndCharacter node))
              (snd (getLineAndCharacter node))
              (inner0 @ cost_inner nodeCost))))"
  by pat_completeness auto
termination
proof (relation "measure (\<lambda>(node, depth). size node)")
  show "wf (measure (\<lambda>(node, depth). size node))" by simp
next
  fix node :: Node and depth :: nat and c d
  assume "c \<in> set (getChildren node)"
  then have "size c < size node"
    by (cases node) (auto simp: less_Suc_eq_le dest: size_list_estimation')
  then show "((c, d), node, depth) \<in> measure (\<lambda>(node, depth). size node)" by simp
next
  fix node :: Node and depth :: nat and c d
  assume "c \<in> set (getChildren node)"
  then have "size c < size node"
    by (cases node) (auto simp: less_Suc_eq_le dest: size_list_estimation')
  then show "((c, d), node, depth) \<in> measure (\<lambda>(node, depth). size node)" by simp
qed

declare calcElemCost.simps [simp del]

section \<open>The universal rules as the specification words them\<close>

text \<open>
  The intrinsic cost: 1 for a catch clause, a conditional expression, a for-in, for-of or
  for statement, an if, switch or while statement, and for a break or continue statement
  that has an identifier child (the label); 0 otherwise.
\<close>

definition spec_intrinsic :: "Node \<Rightarrow> nat" where
  "spec_intrinsic node =
     (if kind node \<in> {CatchClause, ConditionalExpression, ForInStatement, ForOfStatement,
                       ForStatement, IfStatement, SwitchStatement, WhileStatement}
         \<or> (kind node \<in> {BreakStatement, ContinueStatement}
             \<and> (\<exists>child \<in> set (getChildren node). kind child = Identifier))
      then 1 else 0)"

text \<open>
  The nesting increment: the depth, when it is positive, for a conditional expression, a
  for-in, for-of or for statement, an if, switch or while statement; 0 otherwise.
\<close>

definition spec_nesting :: "Node \<Rightarrow> nat \<Rightarrow> nat" where
  "spec_nesting node depth =
     (if depth > 0
         \<and> kind node \<in> {ConditionalExpression, ForInStatement, ForOfStatement, ForStatement,
                          IfStatement, SwitchStatement, WhileStatement}
      then depth else 0)"

section \<open>Score bookkeeping\<close>

text \<open>
  The excess of a cost object is its score minus the scores of its inner results. No
  \<open>include\<close> changes it, so every handler leaves it at 0 and the dispatcher leaves it at
  what the universal rules added.
\<close>

definition excess :: "AbstractNodeCost \<Rightarrow> int" where
  "excess obj = int (cost_score obj) - int (sum_list (map score (cost_inner obj)))"

lemma excess_newCost [simp]: "excess newCost = 0"
  by (simp add: excess_def newCost_def)

lemma excess_absorb [simp]: "excess (absorb obj sub) = excess obj + excess sub"
  by (simp add: excess_def absorb_def)

lemma includeNode_excess:
  "includeNode calc c d obj = Inr obj' \<Longrightarrow> excess obj' = excess obj"
  by (auto simp: includeNode_def andThen_Inr_iff excess_def)

lemma includeAll_excess:
  "includeAll calc nodes d obj = Inr obj' \<Longrightarrow> excess obj' = excess obj"
proof (induction nodes arbitrary: obj)
  case Nil
  then show ?case by simp
next
  case (Cons c nodes)
  then obtain obj1 where "includeNode calc c d obj = Inr obj1"
    and "includeAll calc nodes d obj1 = Inr obj'"
    by (auto simp: andThen_Inr_iff)
  then show ?case using Cons.IH includeNode_excess by metis
qed

lemma ConditionalExpressionCost_loop_excess:
  "ConditionalExpressionCost_loop calc depth it agg obj = Inr obj' \<Longrightarrow> excess obj' = excess obj"
proof (induction it arbitrary: agg obj)
  case Nil
  then show ?case by (simp add: includeAll_excess)
next
  case (Cons child rest)
  then show ?case
    by (auto simp: andThen_Inr_iff split: if_splits dest!: includeAll_excess)
qed

lemma IfStatementCost_loop_excess:
  "IfStatementCost_loop calc depth it obj = Inr obj' \<Longrightarrow> excess obj' = excess obj"
proof (induction "length it" arbitrary: it obj rule: less_induct)
  case less
  have ih: "excess obj' = excess o1"
    if "IfStatementCost_loop calc depth it' o1 = Inr obj'" "length it' < length it" for it' o1
    using less.hyps [OF that(2) that(1)] .
  from less.prems show ?case
    apply (subst (asm) IfStatementCost_loop.simps)
    apply (clarsimp simp: andThen_Inr_iff nextChild_Inr split: if_splits)
    apply (auto dest!: includeNode_excess ih)
    done
qed

lemma ForLikeStatementCost_loop_excess:
  "ForLikeStatementCost_loop calc depth it obj = Inr (obj', it') \<Longrightarrow> excess obj' = excess obj"
proof (induction "length it" arbitrary: it obj rule: less_induct)
  case less
  have ih: "excess obj' = excess o1"
    if "ForLikeStatementCost_loop calc depth it1 o1 = Inr (obj', it')" "length it1 < length it"
    for it1 o1
    using less.hyps [OF that(2) that(1)] .
  from less.prems show ?case
    apply (subst (asm) ForLikeStatementCost_loop.simps)
    apply (clarsimp simp: andThen_Inr_iff nextChild_Inr split: if_splits)
    apply (auto dest!: includeNode_excess ih)
    done
qed

lemma FunctionDeclarationCost_loop_excess:
  "FunctionDeclarationCost_loop calc depth it obj = Inr obj' \<Longrightarrow> excess obj' = excess obj"
proof (induction "length it" arbitrary: it obj rule: less_induct)
  case less
  have ih: "excess obj' = excess o1"
    if "FunctionDeclarationCost_loop calc depth it' o1 = Inr obj'" "length it' < length it"
    for it' o1
    using less.hyps [OF that(2) that(1)] .
  from less.prems show ?case
    apply (subst (asm) FunctionDeclarationCost_loop.simps)
    apply (clarsimp simp: andThen_Inr_iff nextChild_Inr split: if_splits)
    apply (auto dest!: includeNode_excess ih)
    done
qed

lemma MethodDeclarationCost_loop_excess:
  "MethodDeclarationCost_loop calc depth topL it obj = Inr obj' \<Longrightarrow> excess obj' = excess obj"
proof (induction "length it" arbitrary: it obj rule: less_induct)
  case less
  have ih: "excess obj' = excess o1"
    if "MethodDeclarationCost_loop calc depth topL it' o1 = Inr obj'" "length it' < length it"
    for it' o1
    using less.hyps [OF that(2) that(1)] .
  from less.prems show ?case
    apply (subst (asm) MethodDeclarationCost_loop.simps)
    apply (clarsimp simp: andThen_Inr_iff nextChild_Inr split: if_splits)
    apply (auto dest!: includeNode_excess ih)
    done
qed


lemma ArrowFunctionCost_excess:
  "ArrowFunctionCost calc node depth = Inr sub \<Longrightarrow> excess sub = 0"
  unfolding ArrowFunctionCost_def AbstractFunctionCost_def ArrowFunctionCost_calculate_def
  by (auto simp: andThen_Inr_iff dest!: includeNode_excess)

lemma ConditionalExpressionCost_excess:
  "ConditionalExpressionCost calc node depth = Inr sub \<Longrightarrow> excess sub = 0"
  unfolding ConditionalExpressionCost_def
  by (drule ConditionalExpressionCost_loop_excess) simp

lemma DoStatementCost_excess:
  "DoStatementCost calc node depth = Inr sub \<Longrightarrow> excess sub = 0"
  unfolding DoStatementCost_def
  by (auto simp: andThen_Inr_iff dest!: includeNode_excess)

lemma ForLikeStatementCost_excess:
  "ForLikeStatementCost calc node depth = Inr sub \<Longrightarrow> excess sub = 0"
  unfolding ForLikeStatementCost_def
  by (auto simp: andThen_Inr_iff dest!: includeNode_excess ForLikeStatementCost_loop_excess)

lemma FunctionDeclarationCost_excess:
  "FunctionDeclarationCost calc node depth = Inr sub \<Longrightarrow> excess sub = 0"
  unfolding FunctionDeclarationCost_def AbstractFunctionCost_def
    FunctionDeclarationCost_calculate_def
  by (auto simp: andThen_Inr_iff dest!: FunctionDeclarationCost_loop_excess)

lemma FunctionExpressionCost_excess:
  "FunctionExpressionCost calc node depth = Inr sub \<Longrightarrow> excess sub = 0"
  unfolding FunctionExpressionCost_def AbstractFunctionCost_def
    FunctionExpressionCost_calculate_def Let_def
  by (auto simp: andThen_Inr_iff split: option.splits list.splits
           dest!: includeNode_excess includeAll_excess)

lemma IfStatementCost_excess:
  "IfStatementCost calc node depth = Inr sub \<Longrightarrow> excess sub = 0"
  unfolding IfStatementCost_def
  by (drule IfStatementCost_loop_excess) simp

lemma MethodDeclarationCost_excess:
  "MethodDeclarationCost calc node depth = Inr sub \<Longrightarrow> excess sub = 0"
  unfolding MethodDeclarationCost_def AbstractFunctionCost_def
    MethodDeclarationCost_calculate_def
  by (auto simp: andThen_Inr_iff dest!: MethodDeclarationCost_loop_excess)

lemma SwitchStatementCost_excess:
  "SwitchStatementCost calc node depth = Inr sub \<Longrightarrow> excess sub = 0"
  unfolding SwitchStatementCost_def
  by (auto simp: andThen_Inr_iff dest!: includeNode_excess)

lemma WhileStatementCost_excess:
  "WhileStatementCost calc node depth = Inr sub \<Longrightarrow> excess sub = 0"
  unfolding WhileStatementCost_def
  by (auto simp: andThen_Inr_iff split: if_splits dest!: includeNode_excess)

lemma hasIdentifierChild_iff:
  "hasIdentifierChild nodes \<longleftrightarrow> (\<exists>child \<in> set nodes. kind child = Identifier)"
  by (induction nodes) auto

text \<open>The cost object after the two universal rules of the dispatcher.\<close>

definition universal :: "Node \<Rightarrow> nat \<Rightarrow> AbstractNodeCost" where
  "universal node depth =
     (let obj0 = newCost;
          obj1 = (if isCatchClause node
                     \<or> isConditionalExpression node
                     \<or> isForInStatement node
                     \<or> isForOfStatement node
                     \<or> isForStatement node
                     \<or> isIfStatement node
                     \<or> isSwitchStatement node
                     \<or> isWhileStatement node
                     \<or> isBreakOrContinueToLabel node
                  then obj0\<lparr>cost_score := cost_score obj0 + 1\<rparr> else obj0)
      in (if depth > 0 \<and> (
                     isConditionalExpression node
                     \<or> isForInStatement node
                     \<or> isForOfStatement node
                     \<or> isForStatement node
                     \<or> isIfStatement node
                     \<or> isSwitchStatement node
                     \<or> isWhileStatement node)
                 then obj1\<lparr>cost_score := cost_score obj1 + depth\<rparr> else obj1))"

lemma universal_excess:
  "excess (universal node depth) = int (spec_intrinsic node + spec_nesting node depth)"
  by (auto simp: universal_def Let_def excess_def newCost_def spec_intrinsic_def
        spec_nesting_def isBreakOrContinueToLabel_def hasIdentifierChild_iff)

lemma NodeCost_dispatch:
  "NodeCost calc node depth =
     (let obj = universal node depth
      in if isArrowFunction node then
           andThen (ArrowFunctionCost calc node depth) (\<lambda>sub. Inr (absorb obj sub))
         else if isCatchClause node then
           includeAll calc (getChildren node) (depth + 1) obj
         else if isConditionalExpression node then
           andThen (ConditionalExpressionCost calc node depth) (\<lambda>sub. Inr (absorb obj sub))
         else if isDoStatement node then
           andThen (DoStatementCost calc node depth) (\<lambda>sub. Inr (absorb obj sub))
         else if isForLikeStatement node then
           andThen (ForLikeStatementCost calc node depth) (\<lambda>sub. Inr (absorb obj sub))
         else if isFunctionDeclaration node then
           andThen (FunctionDeclarationCost calc node depth) (\<lambda>sub. Inr (absorb obj sub))
         else if isFunctionExpression node then
           andThen (FunctionExpressionCost calc node depth) (\<lambda>sub. Inr (absorb obj sub))
         else if isIfStatement node then
           andThen (IfStatementCost calc node depth) (\<lambda>sub. Inr (absorb obj sub))
         else if isMethodDeclaration node then
           andThen (MethodDeclarationCost calc node depth) (\<lambda>sub. Inr (absorb obj sub))
         else if isSwitchStatement node then
           andThen (SwitchStatementCost calc node depth) (\<lambda>sub. Inr (absorb obj sub))
         else if isWhileStatement node then
           andThen (WhileStatementCost calc node depth) (\<lambda>sub. Inr (absorb obj sub))
         else
           includeAll calc (getChildren node) depth obj)"
  unfolding NodeCost_def universal_def Let_def by (rule refl)

lemma NodeCost_excess:
  assumes "NodeCost calc node depth = Inr obj"
  shows "excess obj = int (spec_intrinsic node + spec_nesting node depth)"
proof -
  have "excess obj = excess (universal node depth)"
    using assms unfolding NodeCost_dispatch Let_def
    by (auto simp: andThen_Inr_iff split: if_splits
          dest!: includeAll_excess ArrowFunctionCost_excess ConditionalExpressionCost_excess
            DoStatementCost_excess ForLikeStatementCost_excess FunctionDeclarationCost_excess
            FunctionExpressionCost_excess IfStatementCost_excess MethodDeclarationCost_excess
            SwitchStatementCost_excess WhileStatementCost_excess)
  then show ?thesis by (simp add: universal_excess)
qed

section \<open>What \<open>calcElemCost\<close> returns\<close>

lemma calcElemCost_children_results:
  "calcElemCost_children calc nodes acc = Inr acc' \<Longrightarrow>
   \<exists>es. list_all2 (\<lambda>c e. calc c 0 = Inr e) nodes es
      \<and> fst acc' = fst acc + sum_list (map score es)
      \<and> snd acc' = snd acc @ es"
proof (induction nodes arbitrary: acc)
  case Nil
  then show ?case by simp
next
  case (Cons c nodes)
  from Cons.prems obtain e where e: "calc c 0 = Inr e"
    and rest: "calcElemCost_children calc nodes (fst acc + score e, snd acc @ [e]) = Inr acc'"
    by (auto simp: andThen_Inr_iff)
  from Cons.IH [OF rest] obtain es where
    "list_all2 (\<lambda>c e. calc c 0 = Inr e) nodes es"
    "fst acc' = fst acc + score e + sum_list (map score es)"
    "snd acc' = snd acc @ [e] @ es"
    by auto
  with e have "list_all2 (\<lambda>c e. calc c 0 = Inr e) (c # nodes) (e # es)
      \<and> fst acc' = fst acc + sum_list (map score (e # es))
      \<and> snd acc' = snd acc @ (e # es)"
    by simp
  then show ?case by blast
qed

lemma includeAll_results:
  "includeAll calc nodes d obj = Inr obj' \<Longrightarrow>
   \<exists>es. list_all2 (\<lambda>c e. calc c d = Inr e) nodes es
      \<and> cost_inner obj' = cost_inner obj @ es
      \<and> cost_score obj' = cost_score obj + sum_list (map score es)"
proof (induction nodes arbitrary: obj)
  case Nil
  then show ?case by simp
next
  case (Cons c nodes)
  from Cons.prems obtain e where e: "calc c d = Inr e"
    and rest: "includeAll calc nodes d
                 (obj\<lparr>cost_inner := cost_inner obj @ [e],
                      cost_score := cost_score obj + score e\<rparr>) = Inr obj'"
    by (auto simp: andThen_Inr_iff includeNode_def)
  from Cons.IH [OF rest] obtain es where
    "list_all2 (\<lambda>c e. calc c d = Inr e) nodes es"
    "cost_inner obj' = cost_inner obj @ [e] @ es"
    "cost_score obj' = cost_score obj + score e + sum_list (map score es)"
    by auto
  with e have "list_all2 (\<lambda>c e. calc c d = Inr e) (c # nodes) (e # es)
      \<and> cost_inner obj' = cost_inner obj @ (e # es)
      \<and> cost_score obj' = cost_score obj + sum_list (map score (e # es))"
    by simp
  then show ?case by blast
qed

lemma calcElemCost_Inr:
  assumes "calcElemCost node depth = Inr r"
  obtains s inn obj where
    "calcElemCost_children calcElemCost (getChildren node) (0, []) = Inr (s, inn)"
    "NodeCost calcElemCost node depth = Inr obj"
    "score r = s + cost_score obj"
    "inner r = inn @ cost_inner obj"
  using assms
  by (subst (asm) calcElemCost.simps) (auto simp: andThen_Inr_iff)

text \<open>
  The kinds that the dispatcher routes to a construct handler. Every other node goes
  through \<open>includeAll\<close>: a catch clause at \<open>depth + 1\<close>, the rest at \<open>depth\<close>.
\<close>

definition hasConstructHandler :: "Node \<Rightarrow> bool" where
  "hasConstructHandler node \<longleftrightarrow>
     isArrowFunction node \<or> isConditionalExpression node \<or> isDoStatement node
     \<or> isForLikeStatement node \<or> isFunctionDeclaration node \<or> isFunctionExpression node
     \<or> isIfStatement node \<or> isMethodDeclaration node \<or> isSwitchStatement node
     \<or> isWhileStatement node"

lemma universal_inner [simp]: "cost_inner (universal node depth) = []"
  by (simp add: universal_def Let_def newCost_def)

lemma NodeCost_no_handler:
  "\<not> hasConstructHandler node \<Longrightarrow>
   NodeCost calc node depth =
     includeAll calc (getChildren node) (if isCatchClause node then depth + 1 else depth)
       (universal node depth)"
  unfolding NodeCost_dispatch Let_def hasConstructHandler_def by simp

text \<open>
  The loop of the conditional expression handler never adds a child to
  \<open>childNodesToAggregate\<close>, so each \<open>includeAll\<close> runs over the empty array.
\<close>

lemma ConditionalExpressionCost_loop_empty:
  "ConditionalExpressionCost_loop calc depth it [] obj = Inr obj"
  by (induction it arbitrary: obj) simp_all

lemma ConditionalExpressionCost_empty:
  "ConditionalExpressionCost calc node depth = Inr newCost"
  by (simp add: ConditionalExpressionCost_def ConditionalExpressionCost_loop_empty)

text \<open>
  The loop of the if handler returns only through the branch of the \<open>else\<close> keyword, so
  it throws on every if statement that has no \<open>else\<close> keyword among its children.
\<close>

lemma IfStatementCost_loop_returns_after_else:
  "IfStatementCost_loop calc depth it obj = Inr obj' \<Longrightarrow>
   \<exists>child \<in> set it. kind child = ElseKeyword"
proof (induction "length it" arbitrary: it obj rule: less_induct)
  case less
  have ih: "\<exists>child \<in> set it'. kind child = ElseKeyword"
    if "IfStatementCost_loop calc depth it' o1 = Inr obj'" "length it' < length it" for it' o1
    using less.hyps [OF that(2) that(1)] .
  from less.prems show ?case
    apply (subst (asm) IfStatementCost_loop.simps)
    apply (clarsimp simp: andThen_Inr_iff nextChild_Inr split: if_splits)
    apply (auto dest!: ih)
    done
qed

lemma IfStatementCost_fails_without_else:
  "\<forall>child \<in> set (getChildren node). kind child \<noteq> ElseKeyword \<Longrightarrow>
   \<exists>e. IfStatementCost calc node depth = Inl e"
  unfolding IfStatementCost_def
  by (cases "IfStatementCost_loop calc depth (getChildren node) newCost")
     (auto dest!: IfStatementCost_loop_returns_after_else)

text \<open>
  The while handler throws on every node whose first child is the \<open>while\<close> keyword:
  either scoring the condition throws, or the second conditional does.
\<close>

lemma WhileStatementCost_fails_on_while_keyword:
  "getChildren node = child # rest \<Longrightarrow> kind child = WhileKeyword \<Longrightarrow>
   \<exists>e. WhileStatementCost calc node depth = Inl e"
  unfolding WhileStatementCost_def
  by (auto simp: andThen_def split: sum.splits prod.splits)

section \<open>Example trees\<close>

definition token :: "SyntaxKind \<Rightarrow> string \<Rightarrow> Node" where
  "token k text = Node k None [] text (0, 0)"

definition ident :: "string \<Rightarrow> Node" where
  "ident x = Node Identifier None [] x (0, 0)"

definition syntaxList :: "Node list \<Rightarrow> Node" where
  "syntaxList nodes = Node SyntaxList None nodes ''...'' (0, 0)"

definition block :: "Node list \<Rightarrow> Node" where
  "block statements =
     Node Block None
       [token OpenBraceToken ''{'', syntaxList statements, token CloseBraceToken ''}'']
       ''{...}'' (0, 0)"

text \<open>\<open>switch (x) {}\<close>\<close>

definition ex_switch :: Node where
  "ex_switch = Node SwitchStatement None
     [token SwitchKeyword ''switch'', token OpenParenToken ''('', ident ''x'',
      token CloseParenToken '')'',
      Node CaseBlock None
        [token OpenBraceToken ''{'', syntaxList [], token CloseBraceToken ''}'']
        ''{}'' (0, 0)]
     ''switch (x) {}'' (0, 0)"

text \<open>\<open>break outer;\<close>\<close>

definition ex_break :: Node where
  "ex_break = Node BreakStatement None
     [token BreakKeyword ''break'', ident ''outer'', token SemicolonToken '';'']
     ''break outer;'' (0, 0)"

text \<open>\<open>a ? b : c\<close>\<close>

definition ex_conditional :: Node where
  "ex_conditional = Node ConditionalExpression None
     [ident ''a'', token QuestionToken ''?'', ident ''b'', token ColonToken '':'', ident ''c'']
     ''a ? b : c'' (0, 0)"

text \<open>\<open>while (x) {}\<close>\<close>

definition ex_while :: Node where
  "ex_while = Node WhileStatement None
     [token WhileKeyword ''while'', token OpenParenToken ''('', ident ''x'',
      token CloseParenToken '')'', block []]
     ''while (x) {}'' (0, 0)"

text \<open>\<open>if (a) {}\<close>\<close>

definition ex_if :: Node where
  "ex_if = Node IfStatement None
     [token IfKeyword ''if'', token OpenParenToken ''('', ident ''a'',
      token CloseParenToken '')'', block []]
     ''if (a) {}'' (0, 0)"

text \<open>\<open>function f() { switch (x) {} }\<close>, a child of the source file.\<close>

definition ex_function_declaration :: Node where
  "ex_function_declaration = Node FunctionDeclaration (Some (UpNode SourceFile None))
     [token FunctionKeyword ''function'', ident ''f'', token OpenParenToken ''('',
      syntaxList [], token CloseParenToken '')'', block [ex_switch]]
     ''function f() {...}'' (0, 0)"

text \<open>\<open>function () { switch (x) {} }\<close>\<close>

definition ex_function_expression :: Node where
  "ex_function_expression = Node FunctionExpression None
     [token FunctionKeyword ''function'', token OpenParenToken ''('',
      syntaxList [], token CloseParenToken '')'', block [ex_switch]]
     ''function () {...}'' (0, 0)"

text \<open>\<open>m() {}\<close>\<close>

definition ex_method :: Node where
  "ex_method = Node MethodDeclaration None
     [ident ''m'', token OpenParenToken ''('', syntaxList [], token CloseParenToken '')'',
      block []]
     ''m() {}'' (0, 0)"

text \<open>
  The position of \<open>g\<close> in \<open>function f() { function g() {} }\<close>: its parent is the block
  that is the body of \<open>f\<close>, and \<open>f\<close> is a child of the source file.
\<close>

definition ex_nested_function :: UpNode where
  "ex_nested_function =
     UpNode FunctionDeclaration
       (Some (UpNode Block
         (Some (UpNode FunctionDeclaration
           (Some (UpNode SourceFile None))))))"

section \<open>Claims\<close>

subsection \<open>Composition of scores\<close>

text \<open>
  Claim C1. For every node and every depth, the result that \<open>calcElemCost\<close> returns has a
  score equal to the sum of the scores of its inner results plus the local contribution
  of the node, which is the intrinsic cost plus the nesting increment of the two
  universal rules (no handler adds anything of its own). In particular the score is at
  least the sum of the scores of the inner results.
\<close>

theorem calcElemCost_score_composition:
  assumes "calcElemCost node depth = Inr r"
  shows "score r = sum_list (map score (inner r))
                     + (spec_intrinsic node + spec_nesting node depth)
       \<and> sum_list (map score (inner r)) \<le> score r"
proof -
  from assms obtain s inn obj where
    pre: "calcElemCost_children calcElemCost (getChildren node) (0, []) = Inr (s, inn)"
    and nc: "NodeCost calcElemCost node depth = Inr obj"
    and sc: "score r = s + cost_score obj"
    and inn: "inner r = inn @ cost_inner obj"
    by (rule calcElemCost_Inr)
  from calcElemCost_children_results [OF pre]
  have s: "s = sum_list (map score inn)" by auto
  from NodeCost_excess [OF nc]
  have "cost_score obj = sum_list (map score (cost_inner obj))
          + (spec_intrinsic node + spec_nesting node depth)"
    by (simp add: excess_def)
  with sc inn s show ?thesis by simp
qed

theorem calcElemCost_score_composition_witness:
  "(case calcElemCost ex_switch 3 of
      Inl e \<Rightarrow> False
    | Inr r \<Rightarrow>
        score r = sum_list (map score (inner r))
                    + (spec_intrinsic ex_switch + spec_nesting ex_switch 3)
        \<and> sum_list (map score (inner r)) \<le> score r
        \<and> score r = 4)"
proof -
  have "map_sum id score (calcElemCost ex_switch 3) = Inr 4"
    by code_simp
  then obtain r where r: "calcElemCost ex_switch 3 = Inr r" and "score r = 4"
    by (cases "calcElemCost ex_switch 3") auto
  with calcElemCost_score_composition [OF r] show ?thesis by simp
qed

text \<open>
  Claim C2. For every node and depth, the cost object of the dispatcher has a score equal
  to the scores it included plus 1 iff the kind is catch clause, conditional expression,
  for-in, for-of, for, if, switch or while, or the node is a break or continue statement
  with an identifier child, plus the depth iff the depth is positive and the kind is
  conditional expression, for-in, for-of, for, if, switch or while. A catch clause and a
  labeled break or continue are not among the kinds of the second addend, and a break or
  continue without identifier child satisfies neither condition.
\<close>

theorem NodeCost_local_contribution:
  assumes "NodeCost calc node depth = Inr obj"
  shows "cost_score obj =
           sum_list (map score (cost_inner obj))
           + (if kind node \<in> {CatchClause, ConditionalExpression, ForInStatement,
                               ForOfStatement, ForStatement, IfStatement, SwitchStatement,
                               WhileStatement}
                 \<or> (kind node \<in> {BreakStatement, ContinueStatement}
                     \<and> (\<exists>child \<in> set (getChildren node). kind child = Identifier))
              then 1 else 0)
           + (if depth > 0
                 \<and> kind node \<in> {ConditionalExpression, ForInStatement, ForOfStatement,
                                  ForStatement, IfStatement, SwitchStatement, WhileStatement}
              then depth else 0)"
  using NodeCost_excess [OF assms]
  by (simp add: excess_def spec_intrinsic_def spec_nesting_def)

theorem NodeCost_local_contribution_witness:
  "(case NodeCost calcElemCost ex_break 3 of
      Inl e \<Rightarrow> False
    | Inr obj \<Rightarrow>
        kind ex_break = BreakStatement
        \<and> (\<exists>child \<in> set (getChildren ex_break). kind child = Identifier)
        \<and> cost_score obj = sum_list (map score (cost_inner obj)) + 1 + 0
        \<and> cost_score obj = 1)"
proof -
  have k: "kind ex_break = BreakStatement"
    and l: "\<exists>child \<in> set (getChildren ex_break). kind child = Identifier"
    by (simp_all add: ex_break_def ident_def token_def)
  have "map_sum id cost_score (NodeCost calcElemCost ex_break 3) = Inr 1"
    by code_simp
  then obtain obj where obj: "NodeCost calcElemCost ex_break 3 = Inr obj"
    and "cost_score obj = 1"
    by (cases "NodeCost calcElemCost ex_break 3") auto
  with NodeCost_local_contribution [OF obj] k l show ?thesis by simp
qed

subsection \<open>Construct handlers\<close>

text \<open>
  Claim C3. The conditional expression handler is to score the children of the condition
  run at the current depth, those of the "then" run at depth + 1 and those of the "else"
  run at the current depth. On \<open>a ? b : c\<close> the handler scores no child at all: its cost
  object has no inner result. By \<open>ConditionalExpressionCost_empty\<close> it is so on every
  node.
\<close>

theorem ConditionalExpressionCost_scores_no_child:
  "ConditionalExpressionCost calcElemCost ex_conditional 0
     = Inr \<lparr>cost_score = 0, cost_inner = []\<rparr>"
  by code_simp

text \<open>
  Claim C4. The while handler is to return normally on the children \<open>while\<close>, \<open>(\<close>,
  condition, \<open>)\<close>, body. On \<open>while (x) {}\<close> it throws \<open>UnexpectedNodeError\<close> for the
  \<open>while\<close> keyword: after the branch of the \<open>while\<close> keyword has scored the condition,
  the second conditional tests the same child for a close parenthesis and throws. So
  does \<open>calcElemCost\<close> on that statement. By \<open>WhileStatementCost_fails_on_while_keyword\<close>
  the handler fails on every statement of that shape.
\<close>

theorem WhileStatementCost_throws_on_while:
  "WhileStatementCost calcElemCost ex_while 0
     = Inl (UnexpectedNodeError (token WhileKeyword ''while''))
   \<and> calcElemCost ex_while 0 = Inl (UnexpectedNodeError (token WhileKeyword ''while''))"
  by code_simp

text \<open>
  Claim C5. The if handler is to succeed on \<open>if\<close>, \<open>(\<close>, condition,
  \<open>)\<close>, then-branch, with and without an else part. On \<open>if (a) {}\<close>, which has no else
  part, the loop asks for another child after the then-branch and the exhausted iterator
  throws. So does \<open>calcElemCost\<close> on that statement. By
  \<open>IfStatementCost_fails_without_else\<close> the handler fails on every if statement without
  else part.
\<close>

theorem IfStatementCost_throws_without_else:
  "IfStatementCost calcElemCost ex_if 0 = Inl IteratorDone
   \<and> calcElemCost ex_if 0 = Inl IteratorDone"
  by code_simp

text \<open>
  Claim C6. The body of a top-level function declaration is to be scored at the current
  depth. \<open>function f() { switch (x) {} }\<close> is a child of the source file and
  \<open>isTopLevel\<close> returns true for it; at depth 0 its handler scores the parameter list at
  depth 0 and the body at depth 1: the inner result of the body has score 5, the score
  of the body at depth 1, not 4, its score at depth 0.
\<close>

theorem FunctionDeclarationCost_top_level_body_deeper:
  "isTopLevel (upward ex_function_declaration) = Inr True
   \<and> map_sum id (map (\<lambda>elem. (name elem, score elem)) \<circ> cost_inner)
        (FunctionDeclarationCost calcElemCost ex_function_declaration 0)
      = Inr [(''...'', 0), (''{...}'', 5)]
   \<and> map_sum id score (calcElemCost (block [ex_switch]) 0) = Inr 4
   \<and> map_sum id score (calcElemCost (block [ex_switch]) 1) = Inr 5"
  by code_simp

text \<open>
  Claim C7. The method handler is to score the block it reaches as the method body. On
  \<open>m() {}\<close>, where the block is the last child, the handler asks for the child after the
  block and the exhausted iterator throws. Where a child follows the block, that child
  is scored and the block is not.
\<close>

theorem MethodDeclarationCost_throws_at_block:
  "MethodDeclarationCost calcElemCost ex_method 0 = Inl IteratorDone
   \<and> map_sum id (map name \<circ> cost_inner)
        (MethodDeclarationCost_loop calcElemCost 0 None [block [], ident ''after''] newCost)
      = Inr [''after'']"
  by code_simp

text \<open>
  Claim C8. The function expression handler is to score every child but the last at the
  current depth and the last child, the body, at depth + 1. On
  \<open>function () { switch (x) {} }\<close> at depth 0 it scores two children: first the body
  at depth 0 (score 4; at depth 1 it would be 5), then the \<open>function\<close> keyword, the first
  child, at depth 1.
\<close>

theorem FunctionExpressionCost_body_at_current_depth:
  "map_sum id (map (\<lambda>elem. (name elem, score elem)) \<circ> cost_inner)
        (FunctionExpressionCost calcElemCost ex_function_expression 0)
      = Inr [(''{...}'', 4), (''function'', 0)]
   \<and> map_sum id score (calcElemCost (block [ex_switch]) 0) = Inr 4
   \<and> map_sum id score (calcElemCost (block [ex_switch]) 1) = Inr 5
   \<and> map_sum id score (calcElemCost (token FunctionKeyword ''function'') 1) = Inr 0"
  by code_simp

subsection \<open>Top-level classifier\<close>

text \<open>
  Claim C9. \<open>isTopLevel\<close> is to return false for every function nested inside another
  function's body. For \<open>g\<close> in \<open>function f() { function g() {} }\<close>, with \<open>f\<close> a child of
  the source file, it returns true: it climbs from the body block to \<open>f\<close> and answers
  for \<open>f\<close>.
\<close>

theorem isTopLevel_true_inside_function:
  "isTopLevel ex_nested_function = Inr True"
  by code_simp

subsection \<open>The two passes over the children\<close>

text \<open>
  Claim C10, as stated: \<open>calcElemCost\<close> scores each child of the node twice, and both
  passes append a result for the child to \<open>inner\<close>. On \<open>switch (x) {}\<close> the returned
  \<open>inner\<close> has seven results for five children: the handler scores the condition and the
  case block again and consumes the tokens \<open>switch\<close>, \<open>(\<close> and \<open>)\<close> without scoring them.
\<close>

theorem calcElemCost_switch_tokens_scored_once:
  "map_sum id (map name \<circ> inner) (calcElemCost ex_switch 3)
     = Inr [''switch'', ''('', ''x'', '')'', ''{}'', ''x'', ''{}'']
   \<and> map getFullText (getChildren ex_switch) = [''switch'', ''('', ''x'', '')'', ''{}'']"
  by code_simp

text \<open>
  Claim C10, amended. Whenever \<open>calcElemCost\<close> returns for a node at depth \<open>d\<close>, the
  returned \<open>inner\<close> is one result per child, each scored at depth 0 whatever \<open>d\<close> is,
  followed by the inner results of the dispatcher, and the returned score is the sum of
  the scores of the first pass plus the score of the dispatcher. Where the node has no
  construct handler, the dispatcher's inner results are again one per child, each scored
  at \<open>d\<close> (at \<open>d + 1\<close> for a catch clause).
\<close>

theorem calcElemCost_two_passes:
  assumes "calcElemCost node depth = Inr r"
  shows "\<exists>pre obj.
           list_all2 (\<lambda>child elem. calcElemCost child 0 = Inr elem) (getChildren node) pre
           \<and> NodeCost calcElemCost node depth = Inr obj
           \<and> inner r = pre @ cost_inner obj
           \<and> score r = sum_list (map score pre) + cost_score obj
           \<and> (\<not> hasConstructHandler node \<longrightarrow>
                list_all2
                  (\<lambda>child elem.
                     calcElemCost child (if isCatchClause node then depth + 1 else depth)
                       = Inr elem)
                  (getChildren node) (cost_inner obj))"
proof -
  from assms obtain s pre obj where
    p: "calcElemCost_children calcElemCost (getChildren node) (0, []) = Inr (s, pre)"
    and nc: "NodeCost calcElemCost node depth = Inr obj"
    and sc: "score r = s + cost_score obj"
    and inn: "inner r = pre @ cost_inner obj"
    by (rule calcElemCost_Inr)
  from calcElemCost_children_results [OF p]
  have pre: "list_all2 (\<lambda>child elem. calcElemCost child 0 = Inr elem) (getChildren node) pre"
    and s: "s = sum_list (map score pre)"
    by auto
  have second: "list_all2
        (\<lambda>child elem.
           calcElemCost child (if isCatchClause node then depth + 1 else depth) = Inr elem)
        (getChildren node) (cost_inner obj)"
    if "\<not> hasConstructHandler node"
  proof -
    from nc NodeCost_no_handler [OF that, of calcElemCost depth]
    have "includeAll calcElemCost (getChildren node)
            (if isCatchClause node then depth + 1 else depth) (universal node depth) = Inr obj"
      by simp
    from includeAll_results [OF this] show ?thesis by auto
  qed
  from pre nc inn sc s second show ?thesis by blast
qed

theorem calcElemCost_two_passes_witness:
  "(case calcElemCost (block [ex_switch]) 1 of
      Inl e \<Rightarrow> False
    | Inr r \<Rightarrow>
        \<not> hasConstructHandler (block [ex_switch])
        \<and> length (inner r) = 2 * length (getChildren (block [ex_switch]))
        \<and> map name (inner r) = [''{'', ''...'', ''}'', ''{'', ''...'', ''}''])"
proof -
  have h: "\<not> hasConstructHandler (block [ex_switch])"
    by (simp add: hasConstructHandler_def isForLikeStatement_def block_def)
  have "map_sum id (map name \<circ> inner) (calcElemCost (block [ex_switch]) 1)
          = Inr [''{'', ''...'', ''}'', ''{'', ''...'', ''}'']"
    by code_simp
  then obtain r where r: "calcElemCost (block [ex_switch]) 1 = Inr r"
    and n: "map name (inner r) = [''{'', ''...'', ''}'', ''{'', ''...'', ''}'']"
    by (cases "calcElemCost (block [ex_switch]) 1") auto
  from calcElemCost_two_passes [OF r]
  have "length (inner r) = 2 * length (getChildren (block [ex_switch]))"
  proof (elim exE conjE)
    fix pre obj
    assume a: "list_all2 (\<lambda>child elem. calcElemCost child 0 = Inr elem)
                 (getChildren (block [ex_switch])) pre"
      and b: "inner r = pre @ cost_inner obj"
      and c: "\<not> hasConstructHandler (block [ex_switch]) \<longrightarrow>
              list_all2
                (\<lambda>child elem.
                   calcElemCost child (if isCatchClause (block [ex_switch]) then 1 + 1 else 1)
                     = Inr elem)
                (getChildren (block [ex_switch])) (cost_inner obj)"
    from a have "length pre = length (getChildren (block [ex_switch]))"
      by (simp add: list_all2_lengthD)
    moreover from c [THEN mp, OF h]
    have "length (cost_inner obj) = length (getChildren (block [ex_switch]))"
      by (simp add: list_all2_lengthD)
    ultimately show ?thesis using b by simp
  qed
  with r h n show ?thesis by simp
qed

end
